theory Spec2Isabelle
  imports Main "HOL-Library.Countable"
begin

section \<open>The secure audit logger (src/logger.py)\<close>

text \<open>
  A shallow embedding of class \<open>SecureLogger\<close>. Python \<open>str\<close> values are modelled as
  \<open>string\<close> (a list of code points below 256), \<open>bytes\<close> values as a list of bytes; both
  are \<open>char list\<close> in HOL. Exceptions are values of type \<open>error\<close>; a method that
  touches the file system takes the file system and returns it with its result, so that
  what has been persisted when an exception escapes is part of the result.
\<close>

type_synonym bytes = "char list"

datatype error =
    AttributeError
  | UnicodeDecodeError
  | JSONDecodeError
  | ValueError
  | IndexError
  | OverflowError
  | KeyError
  | OSError

subsection \<open>Python values\<close>

text \<open>
  The JSON-compatible Python values that occur in user attributes, in \<open>additional_data\<close>
  and in log entries. A \<open>dict\<close> is an association list in insertion order; Python
  dictionaries have no duplicate keys, which is \<open>wf_json\<close>. Floats are not modelled.
\<close>

datatype json =
    JNull
  | JBool bool
  | JInt int
  | JStr string
  | JArr "json list"
  | JObj "(string \<times> json) list"

type_synonym dict = "(string \<times> json) list"

fun wf_json :: "json \<Rightarrow> bool" where
  "wf_json (JArr xs) = (\<forall>x\<in>set xs. wf_json x)"
| "wf_json (JObj kvs) = (distinct (map fst kvs) \<and> (\<forall>v\<in>set (map snd kvs). wf_json v))"
| "wf_json _ = True"

text \<open>Truth value of a Python object, as tested by \<open>if x\<close> and \<open>not x\<close>.\<close>

fun py_truthy :: "json \<Rightarrow> bool" where
  "py_truthy JNull = False"
| "py_truthy (JBool b) = b"
| "py_truthy (JInt i) = (i \<noteq> 0)"
| "py_truthy (JStr s) = (s \<noteq> [])"
| "py_truthy (JArr xs) = (xs \<noteq> [])"
| "py_truthy (JObj kvs) = (kvs \<noteq> [])"

text \<open>\<open>d.get(k, default)\<close> and \<open>d.pop(k, None)\<close> (the popped value is discarded).\<close>

definition dict_get :: "dict \<Rightarrow> string \<Rightarrow> json \<Rightarrow> json" where
  "dict_get d k dflt = (case map_of d k of None \<Rightarrow> dflt | Some v \<Rightarrow> v)"

definition dict_pop :: "dict \<Rightarrow> string \<Rightarrow> dict" where
  "dict_pop d k = filter (\<lambda>kv. fst kv \<noteq> k) d"

subsection \<open>Library functions\<close>

text \<open>
  The logger calls \<open>hashlib\<close>, \<open>cryptography.fernet\<close>, \<open>json\<close>, \<open>datetime.strptime\<close>
  and the string codec. Their code is not part of the repository: they are parameters
  of the model, collected in one record. A Fernet token depends on the clock and on a
  random IV, so \<open>fernet_encrypt\<close> takes that randomness as its second argument.
  \<open>strptime_day\<close> is \<open>datetime.strptime(s, '%Y-%m-%d')\<close> and \<open>strptime_key\<close> is
  \<open>datetime.strptime(s, '%Y%m%d_%H%M%S')\<close>; a \<open>datetime\<close> is the number of
  microseconds since 0001-01-01 00:00:00, and \<open>None\<close> stands for \<open>ValueError\<close>.
\<close>

record libs =
  sha256_hex :: "bytes \<Rightarrow> string"
  utf8_encode :: "string \<Rightarrow> bytes"
  utf8_decode :: "bytes \<Rightarrow> string option"
  fernet_encrypt :: "bytes \<Rightarrow> nat \<Rightarrow> bytes \<Rightarrow> bytes"
  fernet_decrypt :: "bytes \<Rightarrow> bytes \<Rightarrow> bytes option"
  json_dumps :: "json \<Rightarrow> string"
  json_loads :: "string \<Rightarrow> json option"
  py_str :: "json \<Rightarrow> string"
  strptime_day :: "string \<Rightarrow> int option"
  strptime_key :: "string \<Rightarrow> int option"

text \<open>
  What the theorems below assume of the libraries, each where it is needed:
  a SHA-256 hex digest has 64 hexadecimal characters; the codec, the cipher and the JSON
  serialiser round-trip; a Fernet token is URL-safe base64 text, so it is not blank,
  contains no newline and decodes as text; \<open>str\<close> of a string is the string.
\<close>

definition is_hex :: "char \<Rightarrow> bool" where
  "is_hex c = (c \<in> set ''0123456789abcdef'')"

definition sha_ok :: "libs \<Rightarrow> bool" where
  "sha_ok L = (\<forall>b. length (sha256_hex L b) = 64 \<and> (\<forall>c\<in>set (sha256_hex L b). is_hex c))"

definition codec_ok :: "libs \<Rightarrow> bool" where
  "codec_ok L =
     ((\<forall>s. utf8_decode L (utf8_encode L s) = Some s) \<and>
      (\<forall>b s. utf8_decode L b = Some s \<longrightarrow> utf8_encode L s = b))"

definition json_ok :: "libs \<Rightarrow> bool" where
  "json_ok L = (\<forall>j. wf_json j \<longrightarrow> json_loads L (json_dumps L j) = Some j)"

subsection \<open>Strings and byte strings\<close>

text \<open>
  \<open>s.split(sep)\<close> for a non-empty separator: the leftmost occurrence of \<open>sep\<close> ends the
  current piece and the scan goes on behind it. Python raises \<open>ValueError\<close> for an empty
  separator; the two separators of the source are non-empty literals.
\<close>

fun split_from :: "'a list \<Rightarrow> 'a list \<Rightarrow> 'a list \<Rightarrow> 'a list list" where
  "split_from sep cur [] = [cur]"
| "split_from sep cur (x # xs) =
     (if sep \<noteq> [] \<and> take (length sep) (x # xs) = sep
      then cur # split_from sep [] (drop (length sep) (x # xs))
      else split_from sep (cur @ [x]) xs)"

definition py_split :: "'a list \<Rightarrow> 'a list \<Rightarrow> 'a list list" where
  "py_split sep s = split_from sep [] s"

definition endswith :: "string \<Rightarrow> string \<Rightarrow> bool" where
  "endswith s suf = (length suf \<le> length s \<and> drop (length s - length suf) s = suf)"

definition startswith :: "string \<Rightarrow> string \<Rightarrow> bool" where
  "startswith s pre = (take (length pre) s = pre)"

text \<open>\<open>bytes.strip()\<close> removes ASCII whitespace, \<open>str.strip()\<close> every character with
  \<open>str.isspace()\<close>, from both ends.\<close>

definition bytes_isspace :: "char \<Rightarrow> bool" where
  "bytes_isspace c = (c \<in> set [CHR 0x20, CHR 0x09, CHR 0x0A, CHR 0x0D, CHR 0x0B, CHR 0x0C])"

definition str_isspace :: "char \<Rightarrow> bool" where
  "str_isspace c =
     (c \<in> set [CHR 0x09, CHR 0x0A, CHR 0x0B, CHR 0x0C, CHR 0x0D, CHR 0x1C, CHR 0x1D,
               CHR 0x1E, CHR 0x1F, CHR 0x20, CHR 0x85, CHR 0xA0])"

definition strip_with :: "(char \<Rightarrow> bool) \<Rightarrow> char list \<Rightarrow> char list" where
  "strip_with sp s = rev (dropWhile sp (rev (dropWhile sp s)))"

definition bytes_strip :: "bytes \<Rightarrow> bytes" where
  "bytes_strip = strip_with bytes_isspace"

definition str_strip :: "string \<Rightarrow> string" where
  "str_strip = strip_with str_isspace"

text \<open>
  The lines of a file opened in text mode (\<open>for line in f\<close>): each of \<open>\n\<close>, \<open>\r\<close> and
  \<open>\r\n\<close> ends a line and is read as \<open>\n\<close>, which stays at the end of the line.
\<close>

fun text_lines :: "string \<Rightarrow> string \<Rightarrow> string list" where
  "text_lines cur [] = (if cur = [] then [] else [cur])"
| "text_lines cur (c # cs) =
     (if c = CHR 0x0A then (cur @ [CHR 0x0A]) # text_lines [] cs
      else if c = CHR 0x0D then
        (case cs of
           [] \<Rightarrow> [cur @ [CHR 0x0A]]
         | d # cs' \<Rightarrow>
             if d = CHR 0x0A then (cur @ [CHR 0x0A]) # text_lines [] cs'
             else (cur @ [CHR 0x0A]) # text_lines [] cs)
      else text_lines (cur @ [c]) cs)"

subsection \<open>The logger and the file system\<close>

text \<open>
  A logger holds its key (\<open>self.fernet\<close> is \<open>Fernet(self.key)\<close>); the constructor,
  which generates or encodes the key and writes it to \<open>logs/keys\<close>, and
  \<open>get_encryption_key\<close> are not modelled. The three directories
  \<open>logs/raw\<close>, \<open>logs/encrypted\<close> and \<open>logs/keys\<close> are association lists from file
  name to content, in the order \<open>os.listdir\<close> returns the names. \<open>raw_writable\<close> and
  \<open>enc_writable\<close> say whether \<open>open(..., 'a')\<close> succeeds in the directory; when it
  does not, \<open>open\<close> raises \<open>OSError\<close>.
\<close>

record logger =
  key :: bytes

type_synonym directory = "(string \<times> char list) list"

record fs =
  raw_dir :: directory
  enc_dir :: directory
  key_dir :: directory
  raw_writable :: bool
  enc_writable :: bool

text \<open>Appending to a file creates it when it does not exist; \<open>os.remove\<close> deletes it.\<close>

fun append_file :: "directory \<Rightarrow> string \<Rightarrow> char list \<Rightarrow> directory" where
  "append_file [] name data = [(name, data)]"
| "append_file ((n, c) # d) name data =
     (if n = name then (n, c @ data) # d else (n, c) # append_file d name data)"

definition remove_file :: "directory \<Rightarrow> string \<Rightarrow> directory" where
  "remove_file d name = filter (\<lambda>f. fst f \<noteq> name) d"

text \<open>
  One call of \<open>log_event\<close> reads the clock three times and draws the randomness of three
  Fernet tokens: \<open>datetime.utcnow().isoformat()\<close>, the text of
  \<open>datetime.now().timestamp()\<close>, \<open>datetime.now().strftime("%Y-%m-%d")\<close> in
  \<open>_save_log\<close>, and the IVs for \<open>content\<close>, \<open>additional_data\<close> and the whole record.
\<close>

record env =
  utcnow_iso :: string
  now_timestamp :: string
  now_date :: string
  iv_content :: nat
  iv_additional :: nat
  iv_record :: nat

subsection \<open>\<open>_anonymize\<close>\<close>

text \<open>
  \<^verbatim>\<open>
  def _anonymize(self, data: str) -> str:
      if not data:
          return "anonymous"
      return hashlib.sha256(data.encode()).hexdigest()[:12]
  \<close>
  The callers pass whatever \<open>user_data.get\<close> returns, so \<open>data\<close> is any value; a
  true value other than a string has no \<open>encode\<close>.
\<close>

definition anonymize :: "libs \<Rightarrow> logger \<Rightarrow> json \<Rightarrow> error + string" where
  "anonymize L self data =
     (if \<not> py_truthy data then Inr ''anonymous''
      else case data of
             JStr s \<Rightarrow> Inr (take 12 (sha256_hex L (utf8_encode L s)))
           | _ \<Rightarrow> Inl AttributeError)"

subsection \<open>\<open>log_event\<close> and \<open>_save_log\<close>\<close>

text \<open>\<open>self.fernet.encrypt(b).decode()\<close>: the token as text.\<close>

definition encrypt_text :: "libs \<Rightarrow> logger \<Rightarrow> nat \<Rightarrow> bytes \<Rightarrow> error + string" where
  "encrypt_text L self iv b =
     (case utf8_decode L (fernet_encrypt L (key self) iv b) of
        None \<Rightarrow> Inl UnicodeDecodeError
      | Some t \<Rightarrow> Inr t)"

text \<open>
  The dictionary \<open>log_entry\<close> that \<open>log_event\<close> builds (lines 50 to 76).
  \<open>additional_data\<close> is \<open>None\<close> or a dictionary.
\<close>

definition log_entry ::
  "libs \<Rightarrow> logger \<Rightarrow> env \<Rightarrow> string \<Rightarrow> dict \<Rightarrow> string \<Rightarrow> dict option \<Rightarrow> error + dict" where
  "log_entry L self e event_type user_data content additional_data =
     (case anonymize L self (JStr (py_str L (dict_get user_data ''id'' (JStr [])))) of
        Inl x \<Rightarrow> Inl x
      | Inr user_id_anon \<Rightarrow>
     (case anonymize L self (dict_get user_data ''username'' (JStr [])) of
        Inl x \<Rightarrow> Inl x
      | Inr username_anon \<Rightarrow>
     (case anonymize L self (dict_get user_data ''first_name'' (JStr [])) of
        Inl x \<Rightarrow> Inl x
      | Inr first_name_anon \<Rightarrow>
     (case anonymize L self (dict_get user_data ''last_name'' (JStr [])) of
        Inl x \<Rightarrow> Inl x
      | Inr last_name_anon \<Rightarrow>
     (case anonymize L self
             (JStr (now_timestamp e @ py_str L (dict_get user_data ''id'' (JStr [])))) of
        Inl x \<Rightarrow> Inl x
      | Inr event_id \<Rightarrow>
     (case (if content \<noteq> [] then encrypt_text L self (iv_content e) (utf8_encode L content)
            else Inr []) of
        Inl x \<Rightarrow> Inl x
      | Inr content_field \<Rightarrow>
     (case (case additional_data of
              None \<Rightarrow> Inr []
            | Some d \<Rightarrow>
                if d \<noteq> [] then
                  encrypt_text L self (iv_additional e) (utf8_encode L (json_dumps L (JObj d)))
                else Inr []) of
        Inl x \<Rightarrow> Inl x
      | Inr additional_field \<Rightarrow>
          Inr [(''timestamp'', JStr (utcnow_iso e @ ''Z'')),
               (''event_id'', JStr event_id),
               (''event_type'', JStr event_type),
               (''user'', JObj
                  [(''id_anon'', JStr user_id_anon),
                   (''username_anon'', JStr username_anon),
                   (''first_name_anon'', JStr first_name_anon),
                   (''last_name_anon'', JStr last_name_anon),
                   (''language_code'', dict_get user_data ''language_code'' (JStr [])),
                   (''is_bot'', dict_get user_data ''is_bot'' (JBool False))]),
               (''metadata'', JObj
                  [(''platform'', JStr ''telegram''),
                   (''client'', dict_get user_data ''client'' (JStr ''unknown'')),
                   (''source'', dict_get user_data ''source'' (JStr ''unknown''))]),
               (''content'', JStr content_field),
               (''additional_data'', JStr additional_field)])))))))"

text \<open>The record separator of the encrypted files, \<open>b'\n---RECORD---\n'\<close>.\<close>

definition record_delim :: bytes where
  "record_delim = ''\<newline>---RECORD---\<newline>''"

text \<open>
  \<open>_save_log\<close>: the entry without \<open>content\<close> and \<open>additional_data\<close> goes to the file of
  the day in \<open>logs/raw\<close> as one line, then the whole entry, encrypted, to the file of the
  day in \<open>logs/encrypted\<close>, followed by the separator. The files of \<open>logs/raw\<close> are
  opened in text mode; the model keeps their text.
\<close>

definition safe_log_entry :: "dict \<Rightarrow> dict" where
  "safe_log_entry entry = dict_pop (dict_pop entry ''content'') ''additional_data''"

definition save_log :: "libs \<Rightarrow> logger \<Rightarrow> env \<Rightarrow> dict \<Rightarrow> fs \<Rightarrow> (error + unit) \<times> fs" where
  "save_log L self e entry fs =
     (let date_str = now_date e in
      if \<not> raw_writable fs then (Inl OSError, fs)
      else
        let fs1 = fs\<lparr>raw_dir := append_file (raw_dir fs) (date_str @ ''.ndjson'')
                       (json_dumps L (JObj (safe_log_entry entry)) @ ''\<newline>'')\<rparr>;
            encrypted = fernet_encrypt L (key self) (iv_record e)
                          (utf8_encode L (json_dumps L (JObj entry)))
        in if \<not> enc_writable fs1 then (Inl OSError, fs1)
           else (Inr (), fs1\<lparr>enc_dir := append_file (enc_dir fs1) (date_str @ ''.enc'')
                                  (encrypted @ record_delim)\<rparr>))"

definition log_event ::
  "libs \<Rightarrow> logger \<Rightarrow> env \<Rightarrow> string \<Rightarrow> dict \<Rightarrow> string \<Rightarrow> dict option \<Rightarrow> fs
     \<Rightarrow> (error + json) \<times> fs" where
  "log_event L self e event_type user_data content additional_data fs =
     (case log_entry L self e event_type user_data content additional_data of
        Inl x \<Rightarrow> (Inl x, fs)
      | Inr entry \<Rightarrow>
          (case save_log L self e entry fs of
             (Inl x, fs') \<Rightarrow> (Inl x, fs')
           | (Inr u, fs') \<Rightarrow>
               (case map_of entry ''event_id'' of
                  None \<Rightarrow> (Inl KeyError, fs')
                | Some event_id \<Rightarrow> (Inr event_id, fs'))))"

subsection \<open>\<open>read_logs\<close>\<close>

text \<open>
  The body of the \<open>try\<close> in the encrypted path: \<open>None\<close> when \<open>decrypt\<close>, \<open>decode\<close> or
  \<open>json.loads\<close> raises, which \<open>except Exception\<close> catches.
\<close>

definition decode_record :: "libs \<Rightarrow> logger \<Rightarrow> bytes \<Rightarrow> json option" where
  "decode_record L self record =
     (case fernet_decrypt L (key self) record of
        None \<Rightarrow> None
      | Some decrypted \<Rightarrow>
          (case utf8_decode L decrypted of
             None \<Rightarrow> None
           | Some s \<Rightarrow> json_loads L s))"

fun read_encrypted :: "libs \<Rightarrow> logger \<Rightarrow> bytes list \<Rightarrow> json list \<Rightarrow> json list" where
  "read_encrypted L self [] logs = logs"
| "read_encrypted L self (record # records) logs =
     (if bytes_strip record \<noteq> [] then
        (case decode_record L self record of
           Some entry \<Rightarrow> read_encrypted L self records (logs @ [entry])
         | None \<Rightarrow> read_encrypted L self records logs)
      else read_encrypted L self records logs)"

text \<open>The loop of the plain path has no \<open>try\<close>: the exception of \<open>json.loads\<close> escapes.\<close>

fun read_raw :: "libs \<Rightarrow> string list \<Rightarrow> json list \<Rightarrow> error + json list" where
  "read_raw L [] logs = Inr logs"
| "read_raw L (line # lines) logs =
     (if str_strip line \<noteq> [] then
        (case json_loads L line of
           None \<Rightarrow> Inl JSONDecodeError
         | Some entry \<Rightarrow> read_raw L lines (logs @ [entry]))
      else read_raw L lines logs)"

definition read_logs :: "libs \<Rightarrow> logger \<Rightarrow> string \<Rightarrow> bool \<Rightarrow> fs \<Rightarrow> error + json list" where
  "read_logs L self date_str decrypt fs =
     (if decrypt then
        (case map_of (enc_dir fs) (date_str @ ''.enc'') of
           None \<Rightarrow> Inr []
         | Some content \<Rightarrow> Inr (read_encrypted L self (py_split record_delim content) []))
      else
        (case map_of (raw_dir fs) (date_str @ ''.ndjson'') of
           None \<Rightarrow> Inr []
         | Some text \<Rightarrow> read_raw L (text_lines [] text) []))"

subsection \<open>\<open>cleanup_old_logs\<close>\<close>

text \<open>
  \<open>datetime.now() - timedelta(days=days)\<close>: \<open>timedelta\<close> takes at most 999999999 days,
  and a \<open>datetime\<close> lies between the years 1 and 9999; both raise \<open>OverflowError\<close>.
\<close>

definition usec_per_day :: int where
  "usec_per_day = 86400000000"

definition max_datetime :: int where
  "max_datetime = 3652059 * usec_per_day"

definition cutoff_date :: "int \<Rightarrow> int \<Rightarrow> error + int" where
  "cutoff_date now days =
     (if days < - 999999999 \<or> 999999999 < days then Inl OverflowError
      else let c = now - days * usec_per_day
           in if c < 0 \<or> max_datetime \<le> c then Inl OverflowError else Inr c)"

text \<open>
  The loops over \<open>logs/raw\<close> (suffix \<open>.ndjson\<close>) and \<open>logs/encrypted\<close> (suffix \<open>.enc\<close>)
  are the same up to the suffix and the directory; \<open>strptime\<close> is not guarded there, so
  its \<open>ValueError\<close> ends the loop and the call, with the files removed so far gone.
\<close>

fun purge_dated ::
  "libs \<Rightarrow> string \<Rightarrow> int \<Rightarrow> string list \<Rightarrow> directory \<Rightarrow> error option \<times> directory" where
  "purge_dated L suf cutoff [] d = (None, d)"
| "purge_dated L suf cutoff (filename # rest) d =
     (if endswith filename suf then
        (case py_split ''.'' filename of
           [] \<Rightarrow> (Some IndexError, d)
         | stem # parts \<Rightarrow>
             (case strptime_day L stem of
                None \<Rightarrow> (Some ValueError, d)
              | Some file_date \<Rightarrow>
                  if file_date < cutoff
                  then purge_dated L suf cutoff rest (remove_file d filename)
                  else purge_dated L suf cutoff rest d))
      else purge_dated L suf cutoff rest d)"

text \<open>The loop over \<open>logs/keys\<close> catches the \<open>ValueError\<close> and goes on.\<close>

fun purge_keys :: "libs \<Rightarrow> int \<Rightarrow> string list \<Rightarrow> directory \<Rightarrow> directory" where
  "purge_keys L cutoff [] d = d"
| "purge_keys L cutoff (filename # rest) d =
     (if startswith filename ''key_'' \<and> endswith filename ''.key'' then
        (case strptime_key L (drop 4 (take (length filename - 4) filename)) of
           None \<Rightarrow> purge_keys L cutoff rest d
         | Some key_date \<Rightarrow>
             if key_date < cutoff
             then purge_keys L cutoff rest (remove_file d filename)
             else purge_keys L cutoff rest d)
      else purge_keys L cutoff rest d)"

definition cleanup_old_logs :: "libs \<Rightarrow> int \<Rightarrow> int \<Rightarrow> fs \<Rightarrow> (error + unit) \<times> fs" where
  "cleanup_old_logs L now days fs =
     (case cutoff_date now days of
        Inl x \<Rightarrow> (Inl x, fs)
      | Inr cutoff \<Rightarrow>
          (case purge_dated L ''.ndjson'' cutoff (map fst (raw_dir fs)) (raw_dir fs) of
             (Some x, d1) \<Rightarrow> (Inl x, fs\<lparr>raw_dir := d1\<rparr>)
           | (None, d1) \<Rightarrow>
               (case purge_dated L ''.enc'' cutoff (map fst (enc_dir fs)) (enc_dir fs) of
                  (Some x, d2) \<Rightarrow> (Inl x, fs\<lparr>raw_dir := d1, enc_dir := d2\<rparr>)
                | (None, d2) \<Rightarrow>
                    (Inr (), fs\<lparr>raw_dir := d1, enc_dir := d2,
                                key_dir := purge_keys L cutoff (map fst (key_dir fs))
                                             (key_dir fs)\<rparr>))))"

subsection \<open>Notions used in the statements\<close>

text \<open>
  What the cipher of a logger with key \<open>k\<close> is assumed to do: decryption undoes
  encryption, and a token is not blank, has no newline and decodes as text.
\<close>

definition fernet_ok :: "libs \<Rightarrow> bytes \<Rightarrow> bool" where
  "fernet_ok L k =
     (\<forall>iv p. fernet_decrypt L k (fernet_encrypt L k iv p) = Some p \<and>
             CHR 0x0A \<notin> set (fernet_encrypt L k iv p) \<and>
             bytes_strip (fernet_encrypt L k iv p) \<noteq> [] \<and>
             utf8_decode L (fernet_encrypt L k iv p) \<noteq> None)"


text \<open>An encrypted file written by \<open>_save_log\<close> only: tokens, each followed by the separator.\<close>

definition frame :: "bytes list \<Rightarrow> bytes" where
  "frame rs = concat (map (\<lambda>r. r @ record_delim) rs)"

text \<open>
  What a reader does with the \<open>content\<close> and \<open>additional_data\<close> fields of an entry
  returned by \<open>read_logs\<close>: \<open>fernet.decrypt(field.encode()).decode()\<close>, and
  \<open>json.loads\<close> of that for \<open>additional_data\<close>.
\<close>

definition decrypt_text :: "libs \<Rightarrow> logger \<Rightarrow> string \<Rightarrow> string option" where
  "decrypt_text L self t =
     (case fernet_decrypt L (key self) (utf8_encode L t) of
        None \<Rightarrow> None
      | Some p \<Rightarrow> utf8_decode L p)"

definition entry_content :: "libs \<Rightarrow> logger \<Rightarrow> json \<Rightarrow> string option" where
  "entry_content L self j =
     (case j of
        JObj entry \<Rightarrow>
          (case map_of entry ''content'' of
             Some (JStr t) \<Rightarrow> decrypt_text L self t
           | _ \<Rightarrow> None)
      | _ \<Rightarrow> None)"

definition entry_additional :: "libs \<Rightarrow> logger \<Rightarrow> json \<Rightarrow> json option" where
  "entry_additional L self j =
     (case j of
        JObj entry \<Rightarrow>
          (case map_of entry ''additional_data'' of
             Some (JStr t) \<Rightarrow>
               (case decrypt_text L self t of None \<Rightarrow> None | Some s \<Rightarrow> json_loads L s)
           | _ \<Rightarrow> None)
      | _ \<Rightarrow> None)"

text \<open>The files that \<open>cleanup_old_logs\<close> is to delete: the name has the form of its
  directory and its date is before the cutoff.\<close>

definition expired_dated :: "libs \<Rightarrow> string \<Rightarrow> int \<Rightarrow> string \<Rightarrow> bool" where
  "expired_dated L suf cutoff filename =
     (endswith filename suf \<and>
      (case py_split ''.'' filename of
         [] \<Rightarrow> False
       | stem # parts \<Rightarrow>
           (case strptime_day L stem of None \<Rightarrow> False | Some t \<Rightarrow> t < cutoff)))"

definition expired_key :: "libs \<Rightarrow> int \<Rightarrow> string \<Rightarrow> bool" where
  "expired_key L cutoff filename =
     (startswith filename ''key_'' \<and> endswith filename ''.key'' \<and>
      (case strptime_key L (drop 4 (take (length filename - 4) filename)) of
         None \<Rightarrow> False
       | Some t \<Rightarrow> t < cutoff))"

text \<open>A name of the directory's form whose date \<open>strptime\<close> rejects.\<close>

definition unparseable_dated :: "libs \<Rightarrow> string \<Rightarrow> string \<Rightarrow> bool" where
  "unparseable_dated L suf filename =
     (endswith filename suf \<and>
      (case py_split ''.'' filename of
         [] \<Rightarrow> True
       | stem # parts \<Rightarrow> strptime_day L stem = None))"

subsection \<open>A concrete instance of the libraries\<close>

text \<open>
  Small stand-ins for the library functions, which satisfy what is assumed of them;
  the theorems are instantiated with them at concrete inputs. The cipher escapes the
  payload behind a prefix that names the key; the serialiser numbers the values.
\<close>

instance json :: countable
  by countable_datatype

definition toy_sha256_hex :: "bytes \<Rightarrow> string" where
  "toy_sha256_hex b = replicate 64 (''0123456789abcdef'' ! (length b mod 16))"

fun toy_esc :: "bytes \<Rightarrow> bytes" where
  "toy_esc [] = []"
| "toy_esc (c # cs) = (if c = CHR 0x0A then ''yn'' else [CHR ''x'', c]) @ toy_esc cs"

fun toy_unesc :: "bytes \<Rightarrow> bytes option" where
  "toy_unesc [] = Some []"
| "toy_unesc [c] = None"
| "toy_unesc (a # b # cs) =
     (if a = CHR ''x'' then map_option ((#) b) (toy_unesc cs)
      else if a = CHR ''y'' \<and> b = CHR ''n'' then map_option ((#) (CHR 0x0A)) (toy_unesc cs)
      else None)"

definition toy_prefix :: "bytes \<Rightarrow> bytes" where
  "toy_prefix k = CHR ''g'' # toy_esc k @ ''z''"

definition toy_encrypt :: "bytes \<Rightarrow> nat \<Rightarrow> bytes \<Rightarrow> bytes" where
  "toy_encrypt k iv p = toy_prefix k @ toy_esc p"

definition toy_decrypt :: "bytes \<Rightarrow> bytes \<Rightarrow> bytes option" where
  "toy_decrypt k c =
     (if take (length (toy_prefix k)) c = toy_prefix k
      then toy_unesc (drop (length (toy_prefix k)) c)
      else None)"

definition toy_dumps :: "json \<Rightarrow> string" where
  "toy_dumps j = replicate (Suc (to_nat j)) (CHR ''1'')"

definition toy_loads :: "string \<Rightarrow> json option" where
  "toy_loads s =
     (if s \<noteq> [] \<and> (\<forall>c\<in>set s. c = CHR ''1'') then Some (from_nat (length s - 1)) else None)"

definition toy_py_str :: "json \<Rightarrow> string" where
  "toy_py_str j =
     (case j of
        JStr s \<Rightarrow> s
      | JNull \<Rightarrow> ''None''
      | JBool b \<Rightarrow> (if b then ''True'' else ''False'')
      | _ \<Rightarrow> ''?'')"

text \<open>The two calendar dates of the examples: 2024-01-01 and 2024-02-10 are the days
  738885 and 738925 after 0001-01-01.\<close>

definition toy_strptime_day :: "string \<Rightarrow> int option" where
  "toy_strptime_day s =
     (if s = ''2024-01-01'' then Some (738885 * usec_per_day)
      else if s = ''2024-02-10'' then Some (738925 * usec_per_day)
      else None)"

definition toy_strptime_key :: "string \<Rightarrow> int option" where
  "toy_strptime_key s =
     (if s = ''20240101_120000'' then Some (738885 * usec_per_day + 43200000000)
      else if s = ''20240210_120000'' then Some (738925 * usec_per_day + 43200000000)
      else None)"

definition toy_libs :: libs where
  "toy_libs =
     \<lparr>sha256_hex = toy_sha256_hex,
      utf8_encode = (\<lambda>s. s),
      utf8_decode = Some,
      fernet_encrypt = toy_encrypt,
      fernet_decrypt = toy_decrypt,
      json_dumps = toy_dumps,
      json_loads = toy_loads,
      py_str = toy_py_str,
      strptime_day = toy_strptime_day,
      strptime_key = toy_strptime_key\<rparr>"

text \<open>The inputs of the examples: the user of the scenario of the specification, a
  logger, the readings of the clock on 2024-02-15, an empty and writable file system.\<close>

definition ex_logger :: logger where
  "ex_logger = \<lparr>key = ''k1''\<rparr>"

definition ex_user :: dict where
  "ex_user =
     [(''id'', JInt 123), (''username'', JStr ''alice''), (''first_name'', JStr ''A''),
      (''last_name'', JStr ''B''), (''language_code'', JStr ''en''), (''is_bot'', JBool False)]"

definition ex_env :: env where
  "ex_env =
     \<lparr>utcnow_iso = ''2024-02-15T10:00:00.000001'',
      now_timestamp = ''1707991200.000001'',
      now_date = ''2024-02-15'',
      iv_content = 1, iv_additional = 2, iv_record = 3\<rparr>"

definition ex_fs :: fs where
  "ex_fs = \<lparr>raw_dir = [], enc_dir = [], key_dir = [], raw_writable = True, enc_writable = True\<rparr>"

definition ex_now :: int where
  "ex_now = 738930 * usec_per_day + 36000000000"


definition ex_bad_raw_fs :: fs where
  "ex_bad_raw_fs = ex_fs\<lparr>raw_dir := [(''2024-02-15.ndjson'', ''{\<newline>'')]\<rparr>"

definition ex_entry :: dict where
  "ex_entry =
     [(''timestamp'', JStr ''2024-02-15T10:00:00.000001Z''),
      (''event_id'', JStr (replicate 12 (CHR ''2''))),
      (''event_type'', JStr ''message''),
      (''user'', JObj
         [(''id_anon'', JStr (replicate 12 (CHR ''1''))),
          (''username_anon'', JStr (replicate 12 (CHR ''5''))),
          (''first_name_anon'', JStr (replicate 12 (CHR ''1''))),
          (''last_name_anon'', JStr (replicate 12 (CHR ''1''))),
          (''language_code'', JStr ''en''),
          (''is_bot'', JBool False)]),
      (''metadata'', JObj
         [(''platform'', JStr ''telegram''),
          (''client'', JStr ''unknown''),
          (''source'', JStr ''unknown'')]),
      (''content'', JStr (toy_encrypt ''k1'' 1 ''hello'')),
      (''additional_data'', JStr [])]"

definition ex_readonly_fs :: fs where
  "ex_readonly_fs = ex_fs\<lparr>enc_writable := False\<rparr>"

text \<open>A user record with an empty \<open>id\<close> and without \<open>username\<close> and \<open>last_name\<close>, and
  the entry that \<open>log_event\<close> builds for it.\<close>

definition ex_sparse_user :: dict where
  "ex_sparse_user = [(''id'', JStr []), (''first_name'', JStr ''A'')]"

definition ex_sparse_entry :: dict where
  "ex_sparse_entry =
     [(''timestamp'', JStr ''2024-02-15T10:00:00.000001Z''),
      (''event_id'', JStr (replicate 12 (CHR ''1''))),
      (''event_type'', JStr ''message''),
      (''user'', JObj
         [(''id_anon'', JStr ''anonymous''),
          (''username_anon'', JStr ''anonymous''),
          (''first_name_anon'', JStr (replicate 12 (CHR ''1''))),
          (''last_name_anon'', JStr ''anonymous''),
          (''language_code'', JStr []),
          (''is_bot'', JBool False)]),
      (''metadata'', JObj
         [(''platform'', JStr ''telegram''),
          (''client'', JStr ''unknown''),
          (''source'', JStr ''unknown'')]),
      (''content'', JStr []),
      (''additional_data'', JStr [])]"

text \<open>Directories with files of 2024-01-01 and of 2024-02-10, 45 days and 5 days before
  the day of \<open>ex_now\<close>, and the same with a file \<open>notes.ndjson\<close> listed first.\<close>

definition ex_dated_fs :: fs where
  "ex_dated_fs =
     \<lparr>raw_dir = [(''2024-01-01.ndjson'', ''old''), (''2024-02-10.ndjson'', ''new'')],
      enc_dir = [(''2024-02-10.enc'', ''new''), (''2024-01-01.enc'', ''old'')],
      key_dir = [(''key_20240101_120000.key'', ''k0''), (''key_20240210_120000.key'', ''k1''),
                 (''key_backup.key'', ''k2'')],
      raw_writable = True, enc_writable = True\<rparr>"

definition ex_notes_fs :: fs where
  "ex_notes_fs = ex_dated_fs\<lparr>raw_dir := (''notes.ndjson'', ''n'') # raw_dir ex_dated_fs\<rparr>"

definition ex_extra :: dict where
  "ex_extra = [(''test_field'', JStr ''test_value'')]"

section \<open>Properties\<close>

subsection \<open>Splitting and stripping\<close>

lemma split_from_piece:
  assumes "sep \<noteq> []" "hd sep \<notin> set r"
  shows "split_from sep cur (r @ sep @ rest) = (cur @ r) # split_from sep [] rest"
  using assms
proof (induction r arbitrary: cur)
  case Nil
  then obtain s0 sep' where "sep = s0 # sep'" by (cases sep) auto
  then show ?case by simp
next
  case (Cons x r)
  then have "x \<noteq> hd sep" by auto
  with Cons.prems have "take (length sep) (x # r @ sep @ rest) \<noteq> sep"
    by (cases sep) auto
  with Cons show ?case by simp
qed

lemma split_from_rest:
  assumes "sep \<noteq> []" "hd sep \<notin> set r"
  shows "split_from sep cur r = [cur @ r]"
  using assms
proof (induction r arbitrary: cur)
  case Nil
  show ?case by simp
next
  case (Cons x r)
  then have "x \<noteq> hd sep" by auto
  with Cons.prems have "take (length sep) (x # r) \<noteq> sep"
    by (cases sep) auto
  with Cons show ?case by simp
qed

lemma split_from_not_Nil: "split_from sep cur s \<noteq> []"
  by (induction sep cur s rule: split_from.induct) auto

lemma py_split_not_Nil: "py_split sep s \<noteq> []"
  by (simp add: py_split_def split_from_not_Nil)

lemma record_delim_nonempty: "record_delim \<noteq> []"
  by (simp add: record_delim_def)

lemma hd_record_delim: "hd record_delim = CHR 0x0A"
  by (simp add: record_delim_def)

lemma py_split_frame:
  assumes "\<forall>r\<in>set rs. CHR 0x0A \<notin> set r" "CHR 0x0A \<notin> set t"
  shows "py_split record_delim (frame rs @ t) = rs @ [t]"
  using assms
proof (induction rs)
  case Nil
  then show ?case
    using split_from_rest[OF record_delim_nonempty, of t "[]"]
    by (simp add: py_split_def frame_def hd_record_delim)
next
  case (Cons r rs)
  then have nr: "hd record_delim \<notin> set r" by (simp add: hd_record_delim)
  have "py_split record_delim (frame (r # rs) @ t) =
        split_from record_delim [] (r @ record_delim @ (frame rs @ t))"
    by (simp add: py_split_def frame_def)
  also have "\<dots> = r # split_from record_delim [] (frame rs @ t)"
    using split_from_piece[OF record_delim_nonempty nr, of "[]"] by simp
  also have "\<dots> = r # rs @ [t]"
    using Cons by (simp add: py_split_def)
  finally show ?case by simp
qed

lemma frame_append: "frame (rs @ [r]) = frame rs @ r @ record_delim"
  by (simp add: frame_def)

lemma strip_with_Nil_iff: "strip_with sp s = [] \<longleftrightarrow> (\<forall>c\<in>set s. sp c)"
proof
  assume "strip_with sp s = []"
  then have "\<forall>c\<in>set (dropWhile sp s). sp c"
    by (simp add: strip_with_def)
  then have "dropWhile sp s = []"
    using hd_dropWhile [of sp s] by (cases "dropWhile sp s") auto
  then show "\<forall>c\<in>set s. sp c" by simp
next
  assume "\<forall>c\<in>set s. sp c"
  then show "strip_with sp s = []"
    by (auto simp: strip_with_def dest: set_dropWhileD)
qed

lemma bytes_strip_blank [simp]: "bytes_strip [] = []"
  by (simp add: bytes_strip_def strip_with_def)

subsection \<open>Files\<close>

lemma map_of_append_file_same:
  "map_of (append_file d n x) n = Some (case map_of d n of None \<Rightarrow> x | Some c \<Rightarrow> c @ x)"
  by (induction d) auto

lemma map_of_append_file_other:
  "m \<noteq> n \<Longrightarrow> map_of (append_file d n x) m = map_of d m"
  by (induction d) auto

lemma append_file_not_Nil [simp]: "append_file d n x \<noteq> []"
  by (cases d) (auto split: if_splits)

lemma filter_remove_file:
  "filter P (remove_file d f) = filter (\<lambda>fl. fst fl \<noteq> f \<and> P fl) d"
  by (induction d) (auto simp: remove_file_def)

subsection \<open>The library instance and the examples\<close>

lemma toy_libs_sel [simp]:
  "sha256_hex toy_libs = toy_sha256_hex"
  "utf8_encode toy_libs = (\<lambda>s. s)"
  "utf8_decode toy_libs = Some"
  "fernet_encrypt toy_libs = toy_encrypt"
  "fernet_decrypt toy_libs = toy_decrypt"
  "json_dumps toy_libs = toy_dumps"
  "json_loads toy_libs = toy_loads"
  "py_str toy_libs = toy_py_str"
  "strptime_day toy_libs = toy_strptime_day"
  "strptime_key toy_libs = toy_strptime_key"
  by (simp_all add: toy_libs_def)

lemma toy_sha_ok: "sha_ok toy_libs"
proof -
  have "''0123456789abcdef'' ! (n mod 16) \<in> set ''0123456789abcdef''" for n :: nat
    by (rule nth_mem) simp
  then show ?thesis
    by (auto simp: sha_ok_def toy_sha256_hex_def is_hex_def simp del: set_simps)
qed

lemma toy_codec_ok: "codec_ok toy_libs"
  by (simp add: codec_ok_def)

lemma toy_json_ok: "json_ok toy_libs"
  by (simp add: json_ok_def toy_dumps_def toy_loads_def)


lemma toy_unesc_esc: "toy_unesc (toy_esc p @ q) = map_option ((@) p) (toy_unesc q)"
  by (induction p) (auto simp: option.map_comp comp_def option.map_ident)

lemma toy_esc_no_newline: "CHR 0x0A \<notin> set (toy_esc p)"
  by (induction p) auto

lemma toy_decrypt_encrypt: "toy_decrypt k (toy_encrypt k iv p) = Some p"
  using toy_unesc_esc [of p "[]"] by (simp add: toy_decrypt_def toy_encrypt_def)

lemma toy_fernet_ok: "fernet_ok toy_libs k"
proof -
  have "CHR 0x0A \<notin> set (toy_encrypt k iv p)" for iv p
    by (simp add: toy_encrypt_def toy_prefix_def toy_esc_no_newline)
  moreover have "bytes_strip (toy_encrypt k iv p) \<noteq> []" for iv p
  proof -
    have "CHR ''g'' \<in> set (toy_encrypt k iv p)" "\<not> bytes_isspace (CHR ''g'')"
      by (simp_all add: toy_encrypt_def toy_prefix_def bytes_isspace_def)
    then show ?thesis
      unfolding bytes_strip_def strip_with_Nil_iff by blast
  qed
  ultimately show ?thesis
    by (simp add: fernet_ok_def toy_decrypt_encrypt)
qed

lemma ex_env_sel [simp]:
  "now_date ex_env = ''2024-02-15''" "iv_record ex_env = 3" "key ex_logger = ''k1''"
  by (simp_all add: ex_env_def ex_logger_def)

lemma ex_fs_sel [simp]:
  "raw_dir ex_fs = []" "enc_dir ex_fs = []" "key_dir ex_fs = []"
  "raw_writable ex_fs" "enc_writable ex_fs"
  by (simp_all add: ex_fs_def)

lemma ex_log_entry:
  "log_entry toy_libs ex_logger ex_env ''message'' ex_user ''hello'' None = Inr ex_entry"
  by (simp add: log_entry_def anonymize_def dict_get_def ex_user_def ex_env_def ex_logger_def
      encrypt_text_def toy_py_str_def toy_sha256_hex_def ex_entry_def)

lemma ex_sparse_log_entry:
  "log_entry toy_libs ex_logger ex_env ''message'' ex_sparse_user [] None = Inr ex_sparse_entry"
  by (simp add: log_entry_def anonymize_def dict_get_def ex_sparse_user_def ex_env_def
      ex_logger_def toy_py_str_def toy_sha256_hex_def ex_sparse_entry_def)

lemma ex_cutoff: "cutoff_date ex_now 30 = Inr (738900 * usec_per_day + 36000000000)"
  by (simp add: cutoff_date_def ex_now_def usec_per_day_def max_datetime_def)

lemma ex_stems:
  "py_split ''.'' ''2024-01-01.ndjson'' = [''2024-01-01'', ''ndjson'']"
  "py_split ''.'' ''2024-02-10.ndjson'' = [''2024-02-10'', ''ndjson'']"
  "py_split ''.'' ''2024-01-01.enc'' = [''2024-01-01'', ''enc'']"
  "py_split ''.'' ''2024-02-10.enc'' = [''2024-02-10'', ''enc'']"
  "py_split ''.'' ''notes.ndjson'' = [''notes'', ''ndjson'']"
  by (simp_all add: py_split_def)

subsection \<open>\<open>log_event\<close>, step by step\<close>

lemma save_log_eq:
  "save_log L self e entry fs =
     (if \<not> raw_writable fs then (Inl OSError, fs)
      else if \<not> enc_writable fs then
        (Inl OSError,
         fs\<lparr>raw_dir := append_file (raw_dir fs) (now_date e @ ''.ndjson'')
                          (json_dumps L (JObj (safe_log_entry entry)) @ ''\<newline>'')\<rparr>)
      else
        (Inr (),
         fs\<lparr>raw_dir := append_file (raw_dir fs) (now_date e @ ''.ndjson'')
                          (json_dumps L (JObj (safe_log_entry entry)) @ ''\<newline>''),
             enc_dir := append_file (enc_dir fs) (now_date e @ ''.enc'')
                          (fernet_encrypt L (key self) (iv_record e)
                             (utf8_encode L (json_dumps L (JObj entry))) @ record_delim)\<rparr>))"
  by (simp add: save_log_def Let_def)

lemma log_entry_Inr:
  assumes "log_entry L self e event_type user_data content additional_data = Inr entry"
  shows "\<exists>ida una fna lna eid cf af.
           anonymize L self (JStr (py_str L (dict_get user_data ''id'' (JStr [])))) = Inr ida \<and>
           anonymize L self (dict_get user_data ''username'' (JStr [])) = Inr una \<and>
           anonymize L self (dict_get user_data ''first_name'' (JStr [])) = Inr fna \<and>
           anonymize L self (dict_get user_data ''last_name'' (JStr [])) = Inr lna \<and>
           anonymize L self
             (JStr (now_timestamp e @ py_str L (dict_get user_data ''id'' (JStr [])))) = Inr eid \<and>
           (if content \<noteq> [] then encrypt_text L self (iv_content e) (utf8_encode L content)
            else Inr []) = Inr cf \<and>
           (case additional_data of
              None \<Rightarrow> Inr []
            | Some d \<Rightarrow>
                if d \<noteq> [] then
                  encrypt_text L self (iv_additional e) (utf8_encode L (json_dumps L (JObj d)))
                else Inr []) = Inr af \<and>
           entry =
             [(''timestamp'', JStr (utcnow_iso e @ ''Z'')),
              (''event_id'', JStr eid),
              (''event_type'', JStr event_type),
              (''user'', JObj
                 [(''id_anon'', JStr ida),
                  (''username_anon'', JStr una),
                  (''first_name_anon'', JStr fna),
                  (''last_name_anon'', JStr lna),
                  (''language_code'', dict_get user_data ''language_code'' (JStr [])),
                  (''is_bot'', dict_get user_data ''is_bot'' (JBool False))]),
              (''metadata'', JObj
                 [(''platform'', JStr ''telegram''),
                  (''client'', dict_get user_data ''client'' (JStr ''unknown'')),
                  (''source'', dict_get user_data ''source'' (JStr ''unknown''))]),
              (''content'', JStr cf),
              (''additional_data'', JStr af)]"
  using assms unfolding log_entry_def
  by (auto split: sum.splits)

lemma log_entry_event_id:
  assumes "log_entry L self e event_type user_data content additional_data = Inr entry"
  shows "\<exists>eid. map_of entry ''event_id'' = Some (JStr eid) \<and>
           anonymize L self
             (JStr (now_timestamp e @ py_str L (dict_get user_data ''id'' (JStr [])))) = Inr eid"
  using log_entry_Inr [OF assms] by auto

lemma log_event_eq:
  "log_event L self e event_type user_data content additional_data fs =
     (case log_entry L self e event_type user_data content additional_data of
        Inl x \<Rightarrow> (Inl x, fs)
      | Inr entry \<Rightarrow>
          if \<not> raw_writable fs then (Inl OSError, fs)
          else if \<not> enc_writable fs then
            (Inl OSError,
             fs\<lparr>raw_dir := append_file (raw_dir fs) (now_date e @ ''.ndjson'')
                              (json_dumps L (JObj (safe_log_entry entry)) @ ''\<newline>'')\<rparr>)
          else
            (Inr (the (map_of entry ''event_id'')),
             fs\<lparr>raw_dir := append_file (raw_dir fs) (now_date e @ ''.ndjson'')
                              (json_dumps L (JObj (safe_log_entry entry)) @ ''\<newline>''),
                 enc_dir := append_file (enc_dir fs) (now_date e @ ''.enc'')
                              (fernet_encrypt L (key self) (iv_record e)
                                 (utf8_encode L (json_dumps L (JObj entry))) @ record_delim)\<rparr>))"
proof (cases "log_entry L self e event_type user_data content additional_data")
  case (Inl x)
  then show ?thesis by (simp add: log_event_def)
next
  case (Inr entry)
  from log_entry_event_id [OF Inr] obtain eid where "map_of entry ''event_id'' = Some (JStr eid)"
    by blast
  with Inr show ?thesis
    by (simp add: log_event_def save_log_eq)
qed

lemma log_event_Inr:
  assumes "log_event L self e event_type user_data content additional_data fs = (Inr eid, fs')"
  shows "\<exists>entry.
           log_entry L self e event_type user_data content additional_data = Inr entry \<and>
           raw_writable fs \<and> enc_writable fs \<and>
           map_of entry ''event_id'' = Some eid \<and>
           fs' = fs\<lparr>raw_dir := append_file (raw_dir fs) (now_date e @ ''.ndjson'')
                                (json_dumps L (JObj (safe_log_entry entry)) @ ''\<newline>''),
                    enc_dir := append_file (enc_dir fs) (now_date e @ ''.enc'')
                                (fernet_encrypt L (key self) (iv_record e)
                                   (utf8_encode L (json_dumps L (JObj entry))) @ record_delim)\<rparr>"
proof (cases "log_entry L self e event_type user_data content additional_data")
  case (Inl x)
  with assms show ?thesis by (simp add: log_event_eq)
next
  case (Inr entry)
  from log_entry_event_id [OF Inr] obtain t where "map_of entry ''event_id'' = Some (JStr t)"
    by blast
  with Inr assms show ?thesis
    by (auto simp: log_event_eq split: if_splits)
qed

lemma safe_log_entry_keys:
  "''content'' \<notin> fst ` set (safe_log_entry entry)"
  "''additional_data'' \<notin> fst ` set (safe_log_entry entry)"
  by (auto simp: safe_log_entry_def dict_pop_def)


lemma wf_dict_get:
  assumes "wf_json (JObj d)" "wf_json dflt"
  shows "wf_json (dict_get d k dflt)"
proof (cases "map_of d k")
  case None
  with assms show ?thesis by (simp add: dict_get_def)
next
  case (Some v)
  then have "v \<in> snd ` set d" by (metis map_of_SomeD snd_conv image_eqI)
  with assms Some show ?thesis by (auto simp: dict_get_def)
qed

lemma log_entry_wf:
  assumes "log_entry L self e event_type user_data content additional_data = Inr entry"
    and "wf_json (JObj user_data)"
  shows "wf_json (JObj entry)"
proof -
  have "wf_json (dict_get user_data k (JStr s))" "wf_json (dict_get user_data k (JBool b))" for k s b
    using assms(2) by (simp_all add: wf_dict_get)
  with log_entry_Inr [OF assms(1)] show ?thesis
    by (elim exE conjE) simp
qed

subsection \<open>The loops of \<open>read_logs\<close>\<close>

lemma read_encrypted_eq:
  "read_encrypted L self rs logs =
     logs @ List.map_filter (decode_record L self) (filter (\<lambda>r. bytes_strip r \<noteq> []) rs)"
  by (induction rs arbitrary: logs) (auto split: option.splits)

lemma read_raw_raises:
  assumes "line \<in> set lines" "str_strip line \<noteq> []" "json_loads L line = None"
  shows "read_raw L lines logs = Inl JSONDecodeError"
  using assms
proof (induction lines arbitrary: logs)
  case Nil
  then show ?case by simp
next
  case (Cons l ls)
  show ?case
  proof (cases "l = line")
    case True
    with Cons.prems show ?thesis by simp
  next
    case False
    with Cons.prems have "line \<in> set ls" by simp
    then have "read_raw L ls logs' = Inl JSONDecodeError" for logs'
      using Cons.IH Cons.prems by blast
    then show ?thesis by (simp split: option.splits)
  qed
qed

lemma decode_record_token:
  assumes "codec_ok L" "json_ok L" "fernet_ok L (key self)" "wf_json j"
  shows "decode_record L self (fernet_encrypt L (key self) iv (utf8_encode L (json_dumps L j))) = Some j"
  using assms by (simp add: decode_record_def codec_ok_def json_ok_def fernet_ok_def)


lemma decrypt_text_token:
  assumes "codec_ok L" "fernet_ok L (key self)"
    and "encrypt_text L self iv (utf8_encode L s) = Inr t"
  shows "decrypt_text L self t = Some s"
proof -
  from assms(3) have "utf8_decode L (fernet_encrypt L (key self) iv (utf8_encode L s)) = Some t"
    by (simp add: encrypt_text_def split: option.splits)
  with assms(1) have "utf8_encode L t = fernet_encrypt L (key self) iv (utf8_encode L s)"
    by (simp add: codec_ok_def)
  with assms(1,2) show ?thesis
    by (simp add: decrypt_text_def codec_ok_def fernet_ok_def)
qed

lemma read_encrypted_file:
  assumes "map_of (enc_dir fs) (d @ ''.enc'') = Some (frame rs)"
    and "\<forall>r\<in>set rs. CHR 0x0A \<notin> set r"
  shows "read_logs L self d True fs =
           Inr (List.map_filter (decode_record L self) (filter (\<lambda>r. bytes_strip r \<noteq> []) rs))"
proof -
  have "py_split record_delim (frame rs @ []) = rs @ [[]]"
    using assms(2) by (intro py_split_frame) auto
  with assms(1) show ?thesis
    by (simp add: read_logs_def read_encrypted_eq)
qed

lemma ex_read_empty: "read_logs L self d True ex_fs = Inr []"
  by (simp add: read_logs_def)

lemma read_after_append:
  assumes "codec_ok L" "json_ok L" "fernet_ok L (key self)" "wf_json j"
    and prior: "map_of (enc_dir fs) (d @ ''.enc'') = None \<or>
                (\<exists>rs. map_of (enc_dir fs) (d @ ''.enc'') = Some (frame rs) \<and>
                      (\<forall>r\<in>set rs. CHR 0x0A \<notin> set r))"
  shows "\<exists>previous.
           read_logs L self d True fs = Inr previous \<and>
           read_logs L self d True
             (fs\<lparr>raw_dir := rd,
                 enc_dir := append_file (enc_dir fs) (d @ ''.enc'')
                              (fernet_encrypt L (key self) iv (utf8_encode L (json_dumps L j)) @
                               record_delim)\<rparr>) = Inr (previous @ [j])"
proof -
  let ?tok = "fernet_encrypt L (key self) iv (utf8_encode L (json_dumps L j))"
  let ?fs' = "fs\<lparr>raw_dir := rd,
                 enc_dir := append_file (enc_dir fs) (d @ ''.enc'') (?tok @ record_delim)\<rparr>"
  have tok: "CHR 0x0A \<notin> set ?tok" "bytes_strip ?tok \<noteq> []"
    using assms(3) by (simp_all add: fernet_ok_def)
  have dec: "decode_record L self ?tok = Some j"
    using assms(1-4) by (rule decode_record_token)
  obtain rs where rs: "\<forall>r\<in>set rs. CHR 0x0A \<notin> set r"
    and before: "read_logs L self d True fs =
           Inr (List.map_filter (decode_record L self) (filter (\<lambda>r. bytes_strip r \<noteq> []) rs))"
    and after: "map_of (enc_dir ?fs') (d @ ''.enc'') = Some (frame (rs @ [?tok]))"
  proof (cases "map_of (enc_dir fs) (d @ ''.enc'')")
    case None
    show ?thesis
    proof (rule that [of "[]"])
      show "read_logs L self d True fs =
           Inr (List.map_filter (decode_record L self) (filter (\<lambda>r. bytes_strip r \<noteq> []) []))"
        using None by (simp add: read_logs_def)
      show "map_of (enc_dir ?fs') (d @ ''.enc'') = Some (frame ([] @ [?tok]))"
        using None by (simp add: map_of_append_file_same frame_def)
    qed simp
  next
    case (Some c)
    with prior obtain rs where c: "c = frame rs" and rs: "\<forall>r\<in>set rs. CHR 0x0A \<notin> set r"
      by auto
    show ?thesis
    proof (rule that [of rs])
      show "\<forall>r\<in>set rs. CHR 0x0A \<notin> set r" by (rule rs)
      show "read_logs L self d True fs =
           Inr (List.map_filter (decode_record L self) (filter (\<lambda>r. bytes_strip r \<noteq> []) rs))"
        using Some c rs by (intro read_encrypted_file) simp_all
      show "map_of (enc_dir ?fs') (d @ ''.enc'') = Some (frame (rs @ [?tok]))"
        using Some c by (simp add: map_of_append_file_same frame_def)
    qed
  qed
  have "read_logs L self d True ?fs' =
          Inr (List.map_filter (decode_record L self)
                 (filter (\<lambda>r. bytes_strip r \<noteq> []) (rs @ [?tok])))"
    using after rs tok(1) by (intro read_encrypted_file) simp_all
  also have "\<dots> = Inr (List.map_filter (decode_record L self)
                         (filter (\<lambda>r. bytes_strip r \<noteq> []) rs) @ [j])"
    using tok(2) dec by (simp add: List.map_filter_def)
  finally show ?thesis
    using before by blast
qed

subsection \<open>The loops of \<open>cleanup_old_logs\<close>\<close>

lemma cutoff_date_Inr: "cutoff_date now days = Inr c \<Longrightarrow> c = now - days * usec_per_day"
  by (auto simp: cutoff_date_def Let_def split: if_splits)


text \<open>In any case the loop removes expired files only, and none behind the first name
  that \<open>strptime\<close> rejects.\<close>

lemma purge_dated_sound:
  "\<exists>ds. set ds \<subseteq> set names \<and>
      snd (purge_dated L suf cutoff names d) =
        filter (\<lambda>fl. \<not> (fst fl \<in> set ds \<and> expired_dated L suf cutoff (fst fl))) d"
proof (induction names arbitrary: d)
  case Nil
  show ?case by (rule exI [of _ "[]"]) simp
next
  case (Cons f names)
  have stop: "\<exists>ds. set ds \<subseteq> set (f # names) \<and>
      d = filter (\<lambda>fl. \<not> (fst fl \<in> set ds \<and> expired_dated L suf cutoff (fst fl))) d"
    by (rule exI [of _ "[]"]) simp
  have skip: "\<exists>ds. set ds \<subseteq> set (f # names) \<and>
      snd (purge_dated L suf cutoff names d) =
        filter (\<lambda>fl. \<not> (fst fl \<in> set ds \<and> expired_dated L suf cutoff (fst fl))) d"
    using Cons [of d] by auto
  have del: "\<exists>ds. set ds \<subseteq> set (f # names) \<and>
      snd (purge_dated L suf cutoff names (remove_file d f)) =
        filter (\<lambda>fl. \<not> (fst fl \<in> set ds \<and> expired_dated L suf cutoff (fst fl))) d"
    if "expired_dated L suf cutoff f"
  proof -
    from Cons [of "remove_file d f"] obtain ds where
      "set ds \<subseteq> set names"
      "snd (purge_dated L suf cutoff names (remove_file d f)) =
        filter (\<lambda>fl. \<not> (fst fl \<in> set ds \<and> expired_dated L suf cutoff (fst fl)))
          (remove_file d f)"
      by blast
    with that show ?thesis
      by (intro exI [of _ "f # ds"]) (auto simp: filter_remove_file intro!: filter_cong)
  qed
  show ?case
  proof (cases "endswith f suf")
    case False
    with skip show ?thesis by simp
  next
    case True
    show ?thesis
    proof (cases "py_split ''.'' f")
      case Nil
      with True stop show ?thesis by simp
    next
      case (Cons stem parts)
      show ?thesis
      proof (cases "strptime_day L stem")
        case None
        with True Cons stop show ?thesis by simp
      next
        case (Some t)
        show ?thesis
        proof (cases "t < cutoff")
          case True
          then have "expired_dated L suf cutoff f"
            using \<open>endswith f suf\<close> Cons Some by (simp add: expired_dated_def)
          from del [OF this] True \<open>endswith f suf\<close> Cons Some show ?thesis by simp
        next
          case False
          with \<open>endswith f suf\<close> Cons Some skip show ?thesis by simp
        qed
      qed
    qed
  qed
qed

lemma purge_dated_abort:
  assumes "unparseable_dated L suf f"
  shows "purge_dated L suf cutoff (f # names) d = (Some ValueError, d)"
proof -
  obtain stem parts where sp: "py_split ''.'' f = stem # parts"
    using py_split_not_Nil [of "''.''" f] by (cases "py_split ''.'' f") auto
  with assms show ?thesis
    by (simp add: unparseable_dated_def)
qed

lemma purge_keys_eq:
  "purge_keys L cutoff names d =
     filter (\<lambda>fl. \<not> (fst fl \<in> set names \<and> expired_key L cutoff (fst fl))) d"
proof (induction names arbitrary: d)
  case Nil
  show ?case by simp
next
  case (Cons f names)
  show ?case
  proof (cases "expired_key L cutoff f")
    case True
    then show ?thesis
      by (auto simp: Cons expired_key_def filter_remove_file split: option.splits intro!: filter_cong)
  next
    case False
    then have "purge_keys L cutoff (f # names) d = purge_keys L cutoff names d"
      by (auto simp: expired_key_def split: option.splits)
    with False show ?thesis
      by (auto simp: Cons intro!: filter_cong)
  qed
qed


section \<open>The claims\<close>

subsection \<open>Recovering a logged entry\<close>

text \<open>
  C1, as the code has it. Let the codec, the serialiser and the cipher of the logger
  round-trip, let \<open>user_data\<close> and \<open>additional_data\<close> be dictionaries without duplicate
  keys, and let the encrypted file of the day be absent or hold records written by
  \<open>_save_log\<close>. When \<open>log_event\<close> returns, \<open>read_logs(date, decrypt=True)\<close> returns
  what it returned before followed by one more entry. For a non-empty \<open>content\<close> the
  \<open>content\<close> field of this entry decrypts to \<open>content\<close>, and for a non-empty
  \<open>additional_data\<close> its \<open>additional_data\<close> field decrypts and parses to
  \<open>additional_data\<close>. For an empty \<open>content\<close>, and for an empty or absent
  \<open>additional_data\<close>, the field is the empty string, which is not a token.
\<close>

theorem logged_entry_is_recoverable:
  assumes "codec_ok L" "json_ok L" "fernet_ok L (key self)"
    and "wf_json (JObj user_data)"
    and "\<forall>d. additional_data = Some d \<longrightarrow> wf_json (JObj d)"
    and "map_of (enc_dir fs) (now_date e @ ''.enc'') = None \<or>
         (\<exists>rs. map_of (enc_dir fs) (now_date e @ ''.enc'') = Some (frame rs) \<and>
               (\<forall>r\<in>set rs. CHR 0x0A \<notin> set r))"
    and "log_event L self e event_type user_data content additional_data fs = (Inr eid, fs')"
  shows "\<exists>previous entry.
           read_logs L self (now_date e) True fs = Inr previous \<and>
           read_logs L self (now_date e) True fs' = Inr (previous @ [JObj entry]) \<and>
           (content \<noteq> [] \<longrightarrow> entry_content L self (JObj entry) = Some content) \<and>
           (content = [] \<longrightarrow> map_of entry ''content'' = Some (JStr [])) \<and>
           (\<forall>d. additional_data = Some d \<and> d \<noteq> [] \<longrightarrow>
                entry_additional L self (JObj entry) = Some (JObj d)) \<and>
           (additional_data = None \<or> additional_data = Some [] \<longrightarrow>
                map_of entry ''additional_data'' = Some (JStr []))"
proof -
  from log_event_Inr [OF assms(7)] obtain entry where
    entry: "log_entry L self e event_type user_data content additional_data = Inr entry"
    and fs': "fs' = fs\<lparr>raw_dir := append_file (raw_dir fs) (now_date e @ ''.ndjson'')
                                (json_dumps L (JObj (safe_log_entry entry)) @ ''\<newline>''),
                    enc_dir := append_file (enc_dir fs) (now_date e @ ''.enc'')
                                (fernet_encrypt L (key self) (iv_record e)
                                   (utf8_encode L (json_dumps L (JObj entry))) @ record_delim)\<rparr>"
    by (elim exE conjE) (rule that)
  have wf: "wf_json (JObj entry)"
    using entry assms(4) by (rule log_entry_wf)
  from read_after_append [OF assms(1-3) wf assms(6)] fs'
  obtain previous where
    before: "read_logs L self (now_date e) True fs = Inr previous"
    and after: "read_logs L self (now_date e) True fs' = Inr (previous @ [JObj entry])"
    by blast
  from log_entry_Inr [OF entry] obtain cf af where
    cf: "(if content \<noteq> [] then encrypt_text L self (iv_content e) (utf8_encode L content)
            else Inr []) = Inr cf"
    and af: "(case additional_data of
              None \<Rightarrow> Inr []
            | Some d \<Rightarrow>
                if d \<noteq> [] then
                  encrypt_text L self (iv_additional e) (utf8_encode L (json_dumps L (JObj d)))
                else Inr []) = Inr af"
    and fields: "map_of entry ''content'' = Some (JStr cf)"
      "map_of entry ''additional_data'' = Some (JStr af)"
    by (elim exE conjE) simp
  have c1: "entry_content L self (JObj entry) = Some content" if "content \<noteq> []"
  proof -
    from that cf have "encrypt_text L self (iv_content e) (utf8_encode L content) = Inr cf"
      by simp
    from decrypt_text_token [OF assms(1,3) this] fields(1) show ?thesis
      by (simp add: entry_content_def)
  qed
  have c2: "map_of entry ''content'' = Some (JStr [])" if "content = []"
    using that cf fields(1) by simp
  have a1: "entry_additional L self (JObj entry) = Some (JObj d)"
    if "additional_data = Some d" "d \<noteq> []" for d
  proof -
    from that af have
      "encrypt_text L self (iv_additional e) (utf8_encode L (json_dumps L (JObj d))) = Inr af"
      by simp
    from decrypt_text_token [OF assms(1,3) this]
    have "decrypt_text L self af = Some (json_dumps L (JObj d))" .
    moreover have "json_loads L (json_dumps L (JObj d)) = Some (JObj d)"
      using assms(2,5) that(1) by (simp add: json_ok_def)
    ultimately show ?thesis
      using fields(2) by (simp add: entry_additional_def)
  qed
  have a2: "map_of entry ''additional_data'' = Some (JStr [])"
    if "additional_data = None \<or> additional_data = Some []"
    using that af fields(2) by auto
  show ?thesis
    by (rule exI [of _ previous], rule exI [of _ entry]) (use before after c1 c2 a1 a2 in blast)
qed

theorem logged_entry_is_recoverable_witness:
  "\<exists>entry.
     read_logs toy_libs ex_logger ''2024-02-15'' True
       (snd (log_event toy_libs ex_logger ex_env ''message'' ex_user ''hello'' (Some ex_extra) ex_fs)) =
       Inr [JObj entry] \<and>
     entry_content toy_libs ex_logger (JObj entry) = Some ''hello'' \<and>
     entry_additional toy_libs ex_logger (JObj entry) = Some (JObj ex_extra)"
proof -
  let ?run = "log_event toy_libs ex_logger ex_env ''message'' ex_user ''hello'' (Some ex_extra) ex_fs"
  have "\<exists>entry. log_entry toy_libs ex_logger ex_env ''message'' ex_user ''hello'' (Some ex_extra) =
          Inr entry"
    by (simp add: log_entry_def anonymize_def dict_get_def ex_user_def encrypt_text_def ex_extra_def)
  then obtain eid fs' where run: "?run = (Inr eid, fs')"
    by (auto simp: log_event_eq)
  have user: "wf_json (JObj ex_user)"
    by (simp add: ex_user_def)
  have extra: "\<forall>d. Some ex_extra = Some d \<longrightarrow> wf_json (JObj d)"
    by (simp add: ex_extra_def)
  have prior: "map_of (enc_dir ex_fs) (now_date ex_env @ ''.enc'') = None \<or>
         (\<exists>rs. map_of (enc_dir ex_fs) (now_date ex_env @ ''.enc'') = Some (frame rs) \<and>
               (\<forall>r\<in>set rs. CHR 0x0A \<notin> set r))"
    by simp
  from logged_entry_is_recoverable
         [where self = ex_logger, OF toy_codec_ok toy_json_ok toy_fernet_ok user extra prior run]
  obtain previous entry where
    "read_logs toy_libs ex_logger (now_date ex_env) True ex_fs = Inr previous"
    "read_logs toy_libs ex_logger (now_date ex_env) True fs' = Inr (previous @ [JObj entry])"
    "entry_content toy_libs ex_logger (JObj entry) = Some ''hello''"
    "entry_additional toy_libs ex_logger (JObj entry) = Some (JObj ex_extra)"
    by (elim exE conjE) (simp add: ex_extra_def)
  then show ?thesis
    using run by (intro exI [of _ entry]) (simp add: ex_read_empty)
qed

text \<open>
  C1, as stated, fails for an empty \<open>content\<close>: the entry read back has the empty string
  as its \<open>content\<close> field, and decrypting it fails instead of giving the empty string.
\<close>

theorem empty_content_is_not_recoverable:
  "read_logs toy_libs ex_logger ''2024-02-15'' True
     (snd (log_event toy_libs ex_logger ex_env ''message'' ex_sparse_user [] None ex_fs)) =
     Inr [JObj ex_sparse_entry] \<and>
   map_of ex_sparse_entry ''content'' = Some (JStr []) \<and>
   entry_content toy_libs ex_logger (JObj ex_sparse_entry) \<noteq> Some []"
proof -
  have wf: "wf_json (JObj ex_sparse_entry)"
    by (simp add: ex_sparse_entry_def)
  have prior: "map_of (enc_dir ex_fs) (''2024-02-15'' @ ''.enc'') = None \<or>
         (\<exists>rs. map_of (enc_dir ex_fs) (''2024-02-15'' @ ''.enc'') = Some (frame rs) \<and>
               (\<forall>r\<in>set rs. CHR 0x0A \<notin> set r))"
    by simp
  have run: "snd (log_event toy_libs ex_logger ex_env ''message'' ex_sparse_user [] None ex_fs) =
     ex_fs\<lparr>raw_dir := append_file [] ''2024-02-15.ndjson''
                        (json_dumps toy_libs (JObj (safe_log_entry ex_sparse_entry)) @ ''\<newline>''),
           enc_dir := append_file (enc_dir ex_fs) (''2024-02-15'' @ ''.enc'')
                        (fernet_encrypt toy_libs (key ex_logger) 3
                           (utf8_encode toy_libs (json_dumps toy_libs (JObj ex_sparse_entry))) @
                         record_delim)\<rparr>"
    by (simp add: log_event_eq ex_sparse_log_entry)
  from read_after_append
         [where self = ex_logger and iv = 3 and
            rd = "append_file [] ''2024-02-15.ndjson''
                    (json_dumps toy_libs (JObj (safe_log_entry ex_sparse_entry)) @ ''\<newline>'')",
          OF toy_codec_ok toy_json_ok toy_fernet_ok wf prior]
  have "read_logs toy_libs ex_logger ''2024-02-15'' True
     (snd (log_event toy_libs ex_logger ex_env ''message'' ex_sparse_user [] None ex_fs)) =
     Inr [JObj ex_sparse_entry]"
    by (simp only: run) (simp add: ex_read_empty)
  moreover have "map_of ex_sparse_entry ''content'' = Some (JStr [])"
    by (simp add: ex_sparse_entry_def)
  moreover from this have "entry_content toy_libs ex_logger (JObj ex_sparse_entry) \<noteq> Some []"
    by (simp add: entry_content_def decrypt_text_def toy_decrypt_def toy_prefix_def)
  ultimately show ?thesis by blast
qed

subsection \<open>The redacted entry\<close>

text \<open>
  C2. Whatever the arguments of \<open>log_event\<close> and the file system: either nothing is
  written to \<open>logs/raw\<close>, or one line is appended to the file of the day, the
  serialisation of the entry without its keys \<open>content\<close> and \<open>additional_data\<close>.
\<close>

theorem redacted_entry_has_no_payload:
  "raw_dir (snd (log_event L self e event_type user_data content additional_data fs)) = raw_dir fs \<or>
   (\<exists>entry.
      log_entry L self e event_type user_data content additional_data = Inr entry \<and>
      raw_dir (snd (log_event L self e event_type user_data content additional_data fs)) =
        append_file (raw_dir fs) (now_date e @ ''.ndjson'')
          (json_dumps L (JObj (safe_log_entry entry)) @ ''\<newline>'') \<and>
      ''content'' \<notin> fst ` set (safe_log_entry entry) \<and>
      ''additional_data'' \<notin> fst ` set (safe_log_entry entry))"
  by (cases "log_entry L self e event_type user_data content additional_data")
    (simp_all add: log_event_eq safe_log_entry_keys)

theorem redacted_entry_has_no_payload_witness:
  "raw_dir (snd (log_event toy_libs ex_logger ex_env ''message'' ex_user ''hello'' None ex_fs)) =
     [(''2024-02-15.ndjson'', toy_dumps (JObj (safe_log_entry ex_entry)) @ ''\<newline>'')] \<and>
   map (fst) (safe_log_entry ex_entry) =
     [''timestamp'', ''event_id'', ''event_type'', ''user'', ''metadata'']"
proof -
  have "raw_dir (snd (log_event toy_libs ex_logger ex_env ''message'' ex_user ''hello'' None ex_fs))
          \<noteq> raw_dir ex_fs"
    by (simp add: log_event_eq ex_log_entry ex_fs_def)
  with redacted_entry_has_no_payload
         [of toy_libs ex_logger ex_env "''message''" ex_user "''hello''" None ex_fs]
  have "raw_dir (snd (log_event toy_libs ex_logger ex_env ''message'' ex_user ''hello'' None ex_fs)) =
        append_file (raw_dir ex_fs) (now_date ex_env @ ''.ndjson'')
          (json_dumps toy_libs (JObj (safe_log_entry ex_entry)) @ ''\<newline>'')"
    by (auto simp: ex_log_entry)
  moreover have "map (fst) (safe_log_entry ex_entry) =
     [''timestamp'', ''event_id'', ''event_type'', ''user'', ''metadata'']"
    by (simp add: safe_log_entry_def dict_pop_def ex_entry_def)
  ultimately show ?thesis
    by (simp add: ex_fs_def ex_env_def)
qed

subsection \<open>\<open>_anonymize\<close>\<close>

text \<open>
  C3. \<open>_anonymize\<close> is a function of its argument alone: it does not depend on the
  logger instance. The empty string gives the token \<open>anonymous\<close>; a non-empty string
  gives the first 12 characters of the hexadecimal SHA-256 digest of its encoding, which
  are 12 hexadecimal characters.
\<close>

theorem anonymize_token:
  assumes "sha_ok L"
  shows "anonymize L self (JStr []) = Inr ''anonymous'' \<and>
         anonymize L self data = anonymize L other data \<and>
         (s \<noteq> [] \<longrightarrow>
            (\<exists>t. anonymize L self (JStr s) = Inr t \<and>
                 t = take 12 (sha256_hex L (utf8_encode L s)) \<and>
                 length t = 12 \<and> (\<forall>c\<in>set t. is_hex c)))"
proof -
  have len: "length (sha256_hex L b) = 64" and hex: "\<forall>c\<in>set (sha256_hex L b). is_hex c" for b
    using assms by (simp_all add: sha_ok_def)
  have "\<forall>c\<in>set (take 12 (sha256_hex L b)). is_hex c" for b
    using hex [of b] by (meson in_set_takeD)
  then show ?thesis
    by (simp add: anonymize_def len)
qed

theorem anonymize_token_witness:
  "sha_ok toy_libs \<and>
   anonymize toy_libs ex_logger (JStr []) = Inr ''anonymous'' \<and>
   anonymize toy_libs ex_logger (JStr ''alice'') = anonymize toy_libs \<lparr>key = ''k2''\<rparr> (JStr ''alice'') \<and>
   anonymize toy_libs ex_logger (JStr ''alice'') = Inr (replicate 12 (CHR ''5''))"
proof -
  have "take 12 (toy_sha256_hex ''alice'') = replicate 12 (CHR ''5'')"
    by (simp add: toy_sha256_hex_def)
  then show ?thesis
    using anonymize_token [OF toy_sha_ok, of ex_logger "JStr ''alice''" "\<lparr>key = ''k2''\<rparr>" "''alice''"]
    by (auto simp: toy_sha_ok)
qed

subsection \<open>Reading an encrypted file with corrupt records\<close>



subsection \<open>Reading a plain file with a malformed line\<close>

text \<open>
  C6. The plain path of \<open>read_logs\<close> (\<open>decrypt=False\<close>) does not recover from a
  malformed record: when a non-blank line of the file of the day is not JSON, the
  \<open>JSONDecodeError\<close> of \<open>json.loads\<close> leaves \<open>read_logs\<close> and no entry is returned.
\<close>

theorem read_logs_plain_raises:
  assumes "map_of (raw_dir fs) (d @ ''.ndjson'') = Some text"
    and "line \<in> set (text_lines [] text)"
    and "str_strip line \<noteq> []"
    and "json_loads L line = None"
  shows "read_logs L self d False fs = Inl JSONDecodeError"
  using assms by (simp add: read_logs_def read_raw_raises)

theorem read_logs_plain_raises_witness:
  "map_of (raw_dir ex_bad_raw_fs) (''2024-02-15'' @ ''.ndjson'') = Some ''{\<newline>'' \<and>
   ''{\<newline>'' \<in> set (text_lines [] ''{\<newline>'') \<and>
   str_strip ''{\<newline>'' \<noteq> [] \<and>
   json_loads toy_libs ''{\<newline>'' = None \<and>
   read_logs toy_libs ex_logger ''2024-02-15'' False ex_bad_raw_fs = Inl JSONDecodeError"
proof -
  have 1: "map_of (raw_dir ex_bad_raw_fs) (''2024-02-15'' @ ''.ndjson'') = Some ''{\<newline>''"
    by (simp add: ex_bad_raw_fs_def)
  have 2: "''{\<newline>'' \<in> set (text_lines [] ''{\<newline>'')"
    by simp
  have 3: "str_strip ''{\<newline>'' \<noteq> []"
    by (simp add: str_strip_def strip_with_def str_isspace_def)
  have 4: "json_loads toy_libs ''{\<newline>'' = None"
    by (simp add: toy_loads_def)
  show ?thesis
    using read_logs_plain_raises [OF 1 2 3 4, of ex_logger] 1 2 3 4 by simp
qed

subsection \<open>What \<open>log_event\<close> has persisted when it fails\<close>

text \<open>
  C7, as the code has it. A call of \<open>log_event\<close> ends in one of three ways: it fails
  while the entry is built or the file in \<open>logs/raw\<close> is opened, and the file system is
  unchanged; or it fails when the file in \<open>logs/encrypted\<close> is opened, and the redacted
  line has been appended to \<open>logs/raw\<close> and stays there, without an encrypted
  counterpart; or it appends the entry to both files and returns its \<open>event_id\<close>.
\<close>

theorem log_event_persistence:
  "(\<exists>x. log_event L self e event_type user_data content additional_data fs = (Inl x, fs)) \<or>
   (\<exists>entry.
      log_entry L self e event_type user_data content additional_data = Inr entry \<and>
      raw_writable fs \<and> \<not> enc_writable fs \<and>
      log_event L self e event_type user_data content additional_data fs =
        (Inl OSError,
         fs\<lparr>raw_dir := append_file (raw_dir fs) (now_date e @ ''.ndjson'')
                          (json_dumps L (JObj (safe_log_entry entry)) @ ''\<newline>'')\<rparr>)) \<or>
   (\<exists>entry eid.
      log_entry L self e event_type user_data content additional_data = Inr entry \<and>
      raw_writable fs \<and> enc_writable fs \<and>
      map_of entry ''event_id'' = Some (JStr eid) \<and>
      log_event L self e event_type user_data content additional_data fs =
        (Inr (JStr eid),
         fs\<lparr>raw_dir := append_file (raw_dir fs) (now_date e @ ''.ndjson'')
                          (json_dumps L (JObj (safe_log_entry entry)) @ ''\<newline>''),
             enc_dir := append_file (enc_dir fs) (now_date e @ ''.enc'')
                          (fernet_encrypt L (key self) (iv_record e)
                             (utf8_encode L (json_dumps L (JObj entry))) @ record_delim)\<rparr>))"
proof (cases "log_entry L self e event_type user_data content additional_data")
  case (Inl x)
  then show ?thesis by (simp add: log_event_eq)
next
  case (Inr entry)
  from log_entry_event_id [OF Inr] obtain eid where eid: "map_of entry ''event_id'' = Some (JStr eid)"
    by blast
  consider "\<not> raw_writable fs" | "raw_writable fs" "\<not> enc_writable fs"
    | "raw_writable fs" "enc_writable fs"
    by blast
  then show ?thesis
  proof cases
    case 1
    with Inr show ?thesis by (simp add: log_event_eq)
  next
    case 2
    with Inr show ?thesis by (simp add: log_event_eq)
  next
    case 3
    with Inr eid show ?thesis by (simp add: log_event_eq)
  qed
qed

theorem log_event_persistence_witness:
  "log_event toy_libs ex_logger ex_env ''message'' ex_user ''hello'' None ex_fs =
     (Inr (JStr (replicate 12 (CHR ''2''))),
      ex_fs\<lparr>raw_dir := [(''2024-02-15.ndjson'',
                          toy_dumps (JObj (safe_log_entry ex_entry)) @ ''\<newline>'')],
            enc_dir := [(''2024-02-15.enc'',
                          toy_encrypt ''k1'' 3 (toy_dumps (JObj ex_entry)) @ record_delim)]\<rparr>)"
proof -
  let ?run = "log_event toy_libs ex_logger ex_env ''message'' ex_user ''hello'' None ex_fs"
  have w: "raw_writable ex_fs" "enc_writable ex_fs"
    by (simp_all add: ex_fs_def)
  have ok: "\<not> (\<exists>x. ?run = (Inl x, ex_fs))"
    by (simp add: log_event_eq ex_log_entry w)
  from log_event_persistence
         [of toy_libs ex_logger ex_env "''message''" ex_user "''hello''" None ex_fs] ok w
  obtain entry eid where
    "log_entry toy_libs ex_logger ex_env ''message'' ex_user ''hello'' None = Inr entry"
    "map_of entry ''event_id'' = Some (JStr eid)"
    "?run =
       (Inr (JStr eid),
        ex_fs\<lparr>raw_dir := append_file (raw_dir ex_fs) (now_date ex_env @ ''.ndjson'')
                          (json_dumps toy_libs (JObj (safe_log_entry entry)) @ ''\<newline>''),
              enc_dir := append_file (enc_dir ex_fs) (now_date ex_env @ ''.enc'')
                          (fernet_encrypt toy_libs (key ex_logger) (iv_record ex_env)
                             (utf8_encode toy_libs (json_dumps toy_libs (JObj entry))) @
                           record_delim)\<rparr>)"
    by (elim disjE exE conjE) simp_all
  note run = this
  from run(1) have entry: "entry = ex_entry"
    by (simp add: ex_log_entry)
  from run(2) have eid: "eid = replicate 12 (CHR ''2'')"
    by (simp add: entry ex_entry_def)
  from run(3) show ?thesis
    by (simp add: entry eid ex_fs_def ex_env_def ex_logger_def)
qed

text \<open>
  C7, as stated, fails: when \<open>logs/encrypted\<close> cannot be written, the call fails with
  \<open>OSError\<close> and the redacted record is in \<open>logs/raw\<close> all the same.
\<close>

theorem log_event_not_atomic:
  "fst (log_event toy_libs ex_logger ex_env ''message'' ex_user ''hello'' None ex_readonly_fs) =
     Inl OSError \<and>
   raw_dir ex_readonly_fs = [] \<and>
   raw_dir (snd (log_event toy_libs ex_logger ex_env ''message'' ex_user ''hello'' None
                   ex_readonly_fs)) =
     [(''2024-02-15.ndjson'', toy_dumps (JObj (safe_log_entry ex_entry)) @ ''\<newline>'')] \<and>
   enc_dir (snd (log_event toy_libs ex_logger ex_env ''message'' ex_user ''hello'' None
                   ex_readonly_fs)) = []"
  by (simp add: log_event_eq ex_log_entry)
     (simp add: ex_readonly_fs_def ex_fs_def ex_env_def)

subsection \<open>\<open>cleanup_old_logs\<close>\<close>



text \<open>
  C9, where the code departs from it: a name in \<open>logs/raw\<close> with the suffix \<open>.ndjson\<close>
  whose date \<open>strptime\<close> rejects ends \<open>cleanup_old_logs\<close> with \<open>ValueError\<close>. When it
  is the first name listed, nothing has been deleted: the expired files of all three
  directories are still there.
\<close>

theorem cleanup_aborts_on_unparseable_name:
  assumes "cutoff_date now days = Inr cutoff"
    and "raw_dir fs = (f, c) # rest"
    and "unparseable_dated L ''.ndjson'' f"
  shows "cleanup_old_logs L now days fs = (Inl ValueError, fs)"
  using assms
  by (simp add: cleanup_old_logs_def purge_dated_abort del: purge_dated.simps)

theorem cleanup_aborts_on_unparseable_name_witness:
  "unparseable_dated toy_libs ''.ndjson'' ''notes.ndjson'' \<and>
   expired_dated toy_libs ''.ndjson'' (738900 * usec_per_day + 36000000000) ''2024-01-01.ndjson'' \<and>
   cleanup_old_logs toy_libs ex_now 30 ex_notes_fs = (Inl ValueError, ex_notes_fs) \<and>
   map fst (raw_dir ex_notes_fs) = [''notes.ndjson'', ''2024-01-01.ndjson'', ''2024-02-10.ndjson'']"
proof -
  have bad: "unparseable_dated toy_libs ''.ndjson'' ''notes.ndjson''"
    by (simp add: unparseable_dated_def ex_stems endswith_def toy_strptime_day_def)
  have old: "expired_dated toy_libs ''.ndjson'' (738900 * usec_per_day + 36000000000)
               ''2024-01-01.ndjson''"
    by (simp add: expired_dated_def ex_stems endswith_def toy_strptime_day_def usec_per_day_def)
  have dir: "raw_dir ex_notes_fs = (''notes.ndjson'', ''n'') # raw_dir ex_dated_fs"
    by (simp add: ex_notes_fs_def)
  show ?thesis
    using cleanup_aborts_on_unparseable_name [OF ex_cutoff dir bad] bad old
    by (simp add: ex_notes_fs_def ex_dated_fs_def)
qed

text \<open>
  What holds of \<open>cleanup_old_logs\<close> however it ends: a file that is not expired, and so
  every file whose name has no date that \<open>strptime\<close> accepts, is still there.
\<close>

lemma cleanup_keeps_unexpired:
  assumes "cleanup_old_logs L now days fs = (r, fs')"
  shows "(\<forall>fl\<in>set (raw_dir fs).
            \<not> expired_dated L ''.ndjson'' (now - days * usec_per_day) (fst fl) \<longrightarrow>
            fl \<in> set (raw_dir fs')) \<and>
         (\<forall>fl\<in>set (enc_dir fs).
            \<not> expired_dated L ''.enc'' (now - days * usec_per_day) (fst fl) \<longrightarrow>
            fl \<in> set (enc_dir fs')) \<and>
         (\<forall>fl\<in>set (key_dir fs).
            \<not> expired_key L (now - days * usec_per_day) (fst fl) \<longrightarrow>
            fl \<in> set (key_dir fs'))"
proof (cases "cutoff_date now days")
  case (Inl x)
  with assms show ?thesis by (auto simp: cleanup_old_logs_def)
next
  case (Inr c)
  then have c: "c = now - days * usec_per_day" by (rule cutoff_date_Inr)
  obtain e1 d1 where p1: "purge_dated L ''.ndjson'' c (map fst (raw_dir fs)) (raw_dir fs) = (e1, d1)"
    by (cases "purge_dated L ''.ndjson'' c (map fst (raw_dir fs)) (raw_dir fs)")
  obtain e2 d2 where p2: "purge_dated L ''.enc'' c (map fst (enc_dir fs)) (enc_dir fs) = (e2, d2)"
    by (cases "purge_dated L ''.enc'' c (map fst (enc_dir fs)) (enc_dir fs)")
  from purge_dated_sound [of "map fst (raw_dir fs)" L "''.ndjson''" c "raw_dir fs"] p1
  have k1: "\<forall>fl\<in>set (raw_dir fs). \<not> expired_dated L ''.ndjson'' c (fst fl) \<longrightarrow> fl \<in> set d1"
    by auto
  from purge_dated_sound [of "map fst (enc_dir fs)" L "''.enc''" c "enc_dir fs"] p2
  have k2: "\<forall>fl\<in>set (enc_dir fs). \<not> expired_dated L ''.enc'' c (fst fl) \<longrightarrow> fl \<in> set d2"
    by auto
  have k3: "\<forall>fl\<in>set (key_dir fs). \<not> expired_key L c (fst fl) \<longrightarrow>
              fl \<in> set (purge_keys L c (map fst (key_dir fs)) (key_dir fs))"
    by (simp add: purge_keys_eq)
  from assms Inr p1 p2 have
    "raw_dir fs' = d1 \<and> (enc_dir fs' = d2 \<or> enc_dir fs' = enc_dir fs) \<and>
     (key_dir fs' = purge_keys L c (map fst (key_dir fs)) (key_dir fs) \<or> key_dir fs' = key_dir fs)"
    by (auto simp: cleanup_old_logs_def split: option.splits)
  with k1 k2 k3 show ?thesis
    unfolding c by auto
qed

subsection \<open>Missing user attributes\<close>



end
